theory Spec2Isabelle
  imports Complex_Main
begin

section \<open>Symbolic expressions in the space variables\<close>

text \<open>
  The notebook computes with sympy expressions in the symbols \<open>x\<close>, \<open>y\<close>, \<open>h\<close>, \<open>nu\<close> and
  \<open>E\<close>. Only \<open>x\<close> and \<open>y\<close> are ever differentiated or integrated over; \<open>h\<close>, \<open>nu\<close> and
  \<open>E\<close> stay parameters until \<open>K.subs\<close> gives them values. An expression is therefore
  modelled as a polynomial in \<open>x\<close> and \<open>y\<close>: a list of monomials \<open>(c, i, j)\<close> standing for
  \<open>c * x^i * y^j\<close>, whose coefficient \<open>c\<close> is a real number depending on the parameters.
  Python floats (\<open>2.0\<close>, \<open>1.0/3.0\<close>) are modelled as exact reals. Division is that of
  the reals, where \<open>a / 0 = 0\<close>; sympy has no finite value there, so the model speaks
  for the notebook where \<open>h \<noteq> 0\<close> and \<open>nu\<^sup>2 \<noteq> 1\<close>.
\<close>

datatype var = X | Y

type_synonym monomial = "real \<times> nat \<times> nat"
type_synonym expr = "monomial list"

definition Num :: "real \<Rightarrow> expr" where
  "Num c = [(c, 0, 0)]"

fun Sym :: "var \<Rightarrow> expr" where
  "Sym X = [(1, 1, 0)]"
| "Sym Y = [(1, 0, 1)]"

definition e_zero :: expr where
  "e_zero = []"

definition e_add :: "expr \<Rightarrow> expr \<Rightarrow> expr" where
  "e_add a b = a @ b"

definition e_scale :: "real \<Rightarrow> expr \<Rightarrow> expr" where
  "e_scale k a = map (\<lambda>(c, i, j). (k * c, i, j)) a"

definition e_sub :: "expr \<Rightarrow> expr \<Rightarrow> expr" where
  "e_sub a b = e_add a (e_scale (- 1) b)"

definition e_mul :: "expr \<Rightarrow> expr \<Rightarrow> expr" where
  "e_mul a b = concat (map (\<lambda>(c, i, j). map (\<lambda>(d, k, l). (c * d, i + k, j + l)) b) a)"

text \<open>The value of an expression at a point.\<close>

definition eval :: "expr \<Rightarrow> real \<Rightarrow> real \<Rightarrow> real" where
  "eval e x y = sum_list (map (\<lambda>(c, i, j). c * x ^ i * y ^ j) e)"

text \<open>An expression free of \<open>x\<close> and \<open>y\<close> is read back as the number it denotes.\<close>

definition scalar :: "expr \<Rightarrow> real" where
  "scalar e = eval e 0 0"

text \<open>\<open>sym.diff(e, v)\<close>: the derivative, monomial by monomial.\<close>

fun diff_mono :: "var \<Rightarrow> monomial \<Rightarrow> monomial" where
  "diff_mono X (c, i, j) = (c * real i, i - 1, j)"
| "diff_mono Y (c, i, j) = (c * real j, i, j - 1)"

definition sym_diff :: "expr \<Rightarrow> var \<Rightarrow> expr" where
  "sym_diff e v = map (diff_mono v) e"

text \<open>
  \<open>sym.integrate(e, (v, a, b))\<close>: the definite integral over \<open>v\<close> from \<open>a\<close> to \<open>b\<close>,
  monomial by monomial; the result no longer contains \<open>v\<close>. Several limits are applied
  from left to right.
\<close>

fun integrate_mono :: "var \<Rightarrow> real \<Rightarrow> real \<Rightarrow> monomial \<Rightarrow> monomial" where
  "integrate_mono X a b (c, i, j) = (c * (b ^ (i + 1) - a ^ (i + 1)) / real (i + 1), 0, j)"
| "integrate_mono Y a b (c, i, j) = (c * (b ^ (j + 1) - a ^ (j + 1)) / real (j + 1), i, 0)"

fun integrate1 :: "expr \<Rightarrow> var \<times> real \<times> real \<Rightarrow> expr" where
  "integrate1 e (v, a, b) = map (integrate_mono v a b) e"

definition sym_integrate :: "expr \<Rightarrow> (var \<times> real \<times> real) list \<Rightarrow> expr" where
  "sym_integrate e limits = fold (\<lambda>l e'. integrate1 e' l) limits e"

section \<open>Matrices\<close>

text \<open>
  A sympy \<open>Matrix\<close> is a list of rows. \<open>sym.zeros(r, c)\<close> is the zero matrix, \<open>M[r, c] = v\<close>
  replaces one entry, \<open>M.T\<close> transposes and \<open>A * B\<close> is the matrix product. Every index
  the notebook writes is a literal or a loop counter inside the matrix, and every product
  it forms is of matrices whose shapes fit.
\<close>

type_synonym matrix = "expr list list"

definition zeros :: "nat \<Rightarrow> nat \<Rightarrow> matrix" where
  "zeros r c = replicate r (replicate c e_zero)"

definition mat_set :: "matrix \<Rightarrow> nat \<times> nat \<Rightarrow> expr \<Rightarrow> matrix" where
  "mat_set M rc v = (case rc of (r, c) \<Rightarrow> M[r := (M ! r)[c := v]])"

definition mat_T :: "matrix \<Rightarrow> matrix" where
  "mat_T M = map (\<lambda>c. map (\<lambda>row. row ! c) M) [0..<length (hd M)]"

definition dot :: "expr list \<Rightarrow> expr list \<Rightarrow> expr" where
  "dot r c = foldr e_add (map2 e_mul r c) e_zero"

definition mat_mul :: "matrix \<Rightarrow> matrix \<Rightarrow> matrix" where
  "mat_mul A B = map (\<lambda>row. map (\<lambda>col. dot row col) (mat_T B)) A"

section \<open>The notebook's functions\<close>

text \<open>
  \<open>shape4(x, y, h)\<close>: \<open>N = 1/(4*h**2) * sym.Matrix([(h + x)*(h + y), ...])\<close>, a column of
  four expressions. (The \<open>N = sym.zeros(4)\<close> before it is overwritten at once.)
\<close>

definition shape4 :: "expr \<Rightarrow> expr \<Rightarrow> real \<Rightarrow> expr list" where
  "shape4 x y h =
     map (e_scale (1 / (4 * h ^ 2)))
       [e_mul (e_add (Num h) x) (e_add (Num h) y),
        e_mul (e_sub (Num h) x) (e_add (Num h) y),
        e_mul (e_sub (Num h) x) (e_sub (Num h) y),
        e_mul (e_add (Num h) x) (e_sub (Num h) y)]"

text \<open>\<open>stdm4(x, y, h)\<close>: the two iterations over \<open>range(4)\<close> are folds over \<open>[0..<4]\<close>.\<close>

definition stdm4 :: "var \<Rightarrow> var \<Rightarrow> real \<Rightarrow> matrix" where
  "stdm4 x y h =
     (let B = zeros 3 8;
          N = shape4 (Sym x) (Sym y) h;
          dhdx = zeros 2 4;
          dhdx = fold (\<lambda>i d.
                   let d = mat_set d (0, i) (sym_diff (N ! i) x);
                       d = mat_set d (1, i) (sym_diff (N ! i) y)
                   in d) [0..<4] dhdx;
          B = fold (\<lambda>i B.
                let B = mat_set B (0, 2 * i) (dhdx ! 0 ! i);
                    B = mat_set B (1, 2 * i + 1) (dhdx ! 1 ! i);
                    B = mat_set B (2, 2 * i) (dhdx ! 1 ! i);
                    B = mat_set B (2, 2 * i + 1) (dhdx ! 0 ! i)
                in B) [0..<4] B
      in B)"

text \<open>\<open>umat(nu, E)\<close>: the plane stress constitutive matrix.\<close>

definition umat :: "real \<Rightarrow> real \<Rightarrow> matrix" where
  "umat nu E =
     (let C = zeros 3 3;
          G = E / (1 - nu ^ 2);
          mnu = (1 - nu) / 2;
          C = mat_set C (0, 0) (Num G);
          C = mat_set C (0, 1) (Num (nu * G));
          C = mat_set C (1, 0) (C ! 0 ! 1);
          C = mat_set C (1, 1) (Num G);
          C = mat_set C (2, 2) (Num (G * mnu))
      in C)"

text \<open>
  The cells that follow: \<open>C = umat(nu, E)\<close>, \<open>B = stdm4(x, y, h)\<close>,
  \<open>K_int = B.T*C*B\<close> (Python multiplies from the left), then the double iteration
  \<open>K[i,j] = sym.integrate(K_int[i,j], (x,-h,h), (y,-h,h))\<close>.
\<close>

definition K_int :: "real \<Rightarrow> real \<Rightarrow> real \<Rightarrow> matrix" where
  "K_int E nu h =
     (let C = umat nu E;
          B = stdm4 X Y h
      in mat_mul (mat_mul (mat_T B) C) B)"

definition K :: "real \<Rightarrow> real \<Rightarrow> real \<Rightarrow> matrix" where
  "K E nu h =
     fold (\<lambda>i K'.
       fold (\<lambda>j K'.
         mat_set K' (i, j) (sym_integrate (K_int E nu h ! i ! j) [(X, - h, h), (Y, - h, h)]))
         [0..<8] K')
       [0..<8] (zeros 8 8)"

text \<open>
  \<open>K.subs([(E, e), (nu, n), (h, w)])\<close>: the entries of \<open>K\<close> at parameter values, as
  numbers. \<open>kk\<close> is this matrix at the notebook's values \<open>EE\<close>, \<open>nuu\<close> and \<open>1.00\<close>.
\<close>

definition K_subs :: "real \<Rightarrow> real \<Rightarrow> real \<Rightarrow> real list list" where
  "K_subs e n w = map (map scalar) (K e n w)"

definition nuu :: real where
  "nuu = 1 / 3"

definition EE :: real where
  "EE = 8 / 3"

definition kk :: "real list list" where
  "kk = K_subs EE nuu 1"

section \<open>Closed forms and notions used in the statements\<close>

text \<open>
  The matrices below are not computed by the notebook; they are what its results are
  proved equal to. \<open>B_closed p q\<close> is the strain-displacement matrix with
  \<open>p = h / (4 h\<^sup>2)\<close> and \<open>q = 1 / (4 h\<^sup>2)\<close>, \<open>C_closed a b s\<close> the constitutive matrix with
  entries \<open>a\<close>, \<open>b\<close> and \<open>s\<close>, and \<open>K_closed P Q a b s\<close> the integrated stiffness matrix.
\<close>

definition B_closed :: "real \<Rightarrow> real \<Rightarrow> matrix" where
  "B_closed p q =
    [[[(0, 0, 0), (0, 0, 1), (p, 0, 0), (q, 0, 1)],
      [],
      [(0, 0, 0), (0, 0, 1), (- p, 0, 0), (- q, 0, 1)],
      [],
      [(0, 0, 0), (0, 0, 1), (- p, 0, 0), (q, 0, 1)],
      [],
      [(0, 0, 0), (0, 0, 1), (p, 0, 0), (- q, 0, 1)],
      []],
     [[],
      [(0, 0, 0), (p, 0, 0), (0, 1, 0), (q, 1, 0)],
      [],
      [(0, 0, 0), (p, 0, 0), (0, 1, 0), (- q, 1, 0)],
      [],
      [(0, 0, 0), (- p, 0, 0), (0, 1, 0), (q, 1, 0)],
      [],
      [(0, 0, 0), (- p, 0, 0), (0, 1, 0), (- q, 1, 0)]],
     [[(0, 0, 0), (p, 0, 0), (0, 1, 0), (q, 1, 0)],
      [(0, 0, 0), (0, 0, 1), (p, 0, 0), (q, 0, 1)],
      [(0, 0, 0), (p, 0, 0), (0, 1, 0), (- q, 1, 0)],
      [(0, 0, 0), (0, 0, 1), (- p, 0, 0), (- q, 0, 1)],
      [(0, 0, 0), (- p, 0, 0), (0, 1, 0), (q, 1, 0)],
      [(0, 0, 0), (0, 0, 1), (- p, 0, 0), (q, 0, 1)],
      [(0, 0, 0), (- p, 0, 0), (0, 1, 0), (- q, 1, 0)],
      [(0, 0, 0), (0, 0, 1), (p, 0, 0), (- q, 0, 1)]]]"

definition C_closed :: "real \<Rightarrow> real \<Rightarrow> real \<Rightarrow> matrix" where
  "C_closed a b s = [[Num a, Num b, e_zero], [Num b, Num a, e_zero], [e_zero, e_zero, Num s]]"

definition K_closed :: "real \<Rightarrow> real \<Rightarrow> real \<Rightarrow> real \<Rightarrow> real \<Rightarrow> real list list" where
  "K_closed P Q a b s =
    [[a * (P + Q) + s * (P + Q), (b + s) * P, - a * (P + Q) + s * (P - Q), (b - s) * P,
      - a * (P - Q) - s * (P - Q), (- b - s) * P, a * (P - Q) - s * (P + Q), (- b + s) * P],
     [(b + s) * P, a * (P + Q) + s * (P + Q), (- b + s) * P, a * (P - Q) - s * (P + Q),
      (- b - s) * P, - a * (P - Q) - s * (P - Q), (b - s) * P, - a * (P + Q) + s * (P - Q)],
     [- a * (P + Q) + s * (P - Q), (- b + s) * P, a * (P + Q) + s * (P + Q), (- b - s) * P,
      a * (P - Q) - s * (P + Q), (b - s) * P, - a * (P - Q) - s * (P - Q), (b + s) * P],
     [(b - s) * P, a * (P - Q) - s * (P + Q), (- b - s) * P, a * (P + Q) + s * (P + Q),
      (- b + s) * P, - a * (P + Q) + s * (P - Q), (b + s) * P, - a * (P - Q) - s * (P - Q)],
     [- a * (P - Q) - s * (P - Q), (- b - s) * P, a * (P - Q) - s * (P + Q), (- b + s) * P,
      a * (P + Q) + s * (P + Q), (b + s) * P, - a * (P + Q) + s * (P - Q), (b - s) * P],
     [(- b - s) * P, - a * (P - Q) - s * (P - Q), (b - s) * P, - a * (P + Q) + s * (P - Q),
      (b + s) * P, a * (P + Q) + s * (P + Q), (- b + s) * P, a * (P - Q) - s * (P + Q)],
     [a * (P - Q) - s * (P + Q), (b - s) * P, - a * (P - Q) - s * (P - Q), (b + s) * P,
      - a * (P + Q) + s * (P - Q), (- b + s) * P, a * (P + Q) + s * (P + Q), (- b - s) * P],
     [(- b + s) * P, - a * (P + Q) + s * (P - Q), (b + s) * P, - a * (P - Q) - s * (P - Q),
      (b - s) * P, a * (P - Q) - s * (P + Q), (- b - s) * P, a * (P + Q) + s * (P + Q)]]"

text \<open>An antiderivative of an expression, monomial by monomial.\<close>

fun anti_mono :: "var \<Rightarrow> monomial \<Rightarrow> monomial" where
  "anti_mono X (c, i, j) = (c / real (i + 1), i + 1, j)"
| "anti_mono Y (c, i, j) = (c / real (j + 1), i, j + 1)"

definition antiderivative :: "expr \<Rightarrow> var \<Rightarrow> expr" where
  "antiderivative e v = map (anti_mono v) e"

text \<open>
  The double integral of the notebook read as a number, and the integral of \<open>t^i\<close> over
  \<open>[-h, h]\<close>.
\<close>

definition mom :: "real \<Rightarrow> nat \<Rightarrow> real" where
  "mom h i = (h ^ (i + 1) - (- h) ^ (i + 1)) / real (i + 1)"

definition I2 :: "real \<Rightarrow> expr \<Rightarrow> real" where
  "I2 h e = scalar (sym_integrate e [(X, - h, h), (Y, - h, h)])"

text \<open>The four nodes of the element, counter-clockwise from \<open>(+h, +h)\<close>.\<close>

definition nodes :: "real \<Rightarrow> (real \<times> real) list" where
  "nodes h = [(h, h), (- h, h), (- h, - h), (h, - h)]"

text \<open>
  The matrix the notebook prints with \<open>sym.N(kk, 3)\<close>, digit by digit: \<open>Dec m d\<close> is the
  decimal \<open>m / 10^d\<close> with a mantissa \<open>m\<close> of three digits, \<open>Zero\<close> is the printed \<open>0\<close>.
  A number rounds to \<open>Dec m d\<close> when it is within half a unit of the last printed digit.
\<close>

datatype printed = Zero | Dec int nat

fun rounds_to :: "real \<Rightarrow> printed \<Rightarrow> bool" where
  "rounds_to v Zero = (v = 0)"
| "rounds_to v (Dec m d) = (100 \<le> \<bar>m\<bar> \<and> \<bar>m\<bar> < 1000 \<and> \<bar>v * 10 ^ d - of_int m\<bar> \<le> 1 / 2)"

definition K_reference :: "printed list list" where
  "K_reference =
    [[Dec 133 2, Dec 500 3, Dec (- 833) 3, Zero, Dec (- 667) 3, Dec (- 500) 3,
      Dec 167 3, Zero],
     [Dec 500 3, Dec 133 2, Zero, Dec 167 3, Dec (- 500) 3, Dec (- 667) 3, Zero,
      Dec (- 833) 3],
     [Dec (- 833) 3, Zero, Dec 133 2, Dec (- 500) 3, Dec 167 3, Zero, Dec (- 667) 3,
      Dec 500 3],
     [Zero, Dec 167 3, Dec (- 500) 3, Dec 133 2, Zero, Dec (- 833) 3, Dec 500 3,
      Dec (- 667) 3],
     [Dec (- 667) 3, Dec (- 500) 3, Dec 167 3, Zero, Dec 133 2, Dec 500 3,
      Dec (- 833) 3, Zero],
     [Dec (- 500) 3, Dec (- 667) 3, Zero, Dec (- 833) 3, Dec 500 3, Dec 133 2, Zero,
      Dec 167 3],
     [Dec 167 3, Zero, Dec (- 667) 3, Dec 500 3, Dec (- 833) 3, Zero, Dec 133 2,
      Dec (- 500) 3],
     [Zero, Dec (- 833) 3, Dec 500 3, Dec (- 667) 3, Zero, Dec 167 3, Dec (- 500) 3,
      Dec 133 2]]"

text \<open>
  Matrix times vector and the quadratic form \<open>v\<^sup>T M v\<close>, over lists of reals. The nodal
  displacements of an infinitesimal rigid motion, translation \<open>(a, b)\<close> and rotation \<open>c\<close>:
  the node at \<open>(x, y)\<close> moves by \<open>(a - c y, b + c x)\<close>.
\<close>

definition mat_vec :: "real list list \<Rightarrow> real list \<Rightarrow> real list" where
  "mat_vec M v = map (\<lambda>r. sum_list (map2 (*) r v)) M"

definition qform :: "real list list \<Rightarrow> real list \<Rightarrow> real" where
  "qform M v = sum_list (map2 (*) v (mat_vec M v))"

definition rigid_motion :: "real \<Rightarrow> real \<Rightarrow> real \<Rightarrow> real \<Rightarrow> real list" where
  "rigid_motion h a b c = concat (map (\<lambda>(x, y). [a - c * y, b + c * x]) (nodes h))"

section \<open>What the expression operations mean\<close>

text \<open>
  The operations on monomial lists are the operations on the functions they denote:
  \<open>eval\<close> turns sums into sums and products into products, \<open>sym_diff\<close> is the partial
  derivative, and \<open>integrate1\<close> is the difference of an antiderivative at the two limits.
\<close>

lemma eval_Nil: "eval [] x y = 0"
  by (simp add: eval_def)
lemma eval_Cons: "eval ((c, i, j) # e) x y = c * x ^ i * y ^ j + eval e x y"
  by (simp add: eval_def)
lemma eval_Num: "eval (Num c) x y = c"
  by (simp add: Num_def eval_def)
lemma eval_Sym: "eval (Sym v) x y = (case v of X \<Rightarrow> x | Y \<Rightarrow> y)"
  by (cases v) (simp_all add: eval_def)
lemma eval_zero: "eval e_zero x y = 0"
  by (simp add: e_zero_def eval_def)
lemma eval_add: "eval (e_add a b) x y = eval a x y + eval b x y"
  by (simp add: e_add_def eval_def)
lemma eval_scale: "eval (e_scale k a) x y = k * eval a x y"
  by (induction a) (auto simp: e_scale_def eval_def algebra_simps)
lemma eval_sub: "eval (e_sub a b) x y = eval a x y - eval b x y"
  by (simp add: e_sub_def eval_add eval_scale)
lemma eval_mul_mono: "eval (map (\<lambda>(d, k, l). (c * d, i + k, j + l)) b) x y = c * x ^ i * y ^ j * eval b x y"
  by (induction b) (auto simp: eval_def algebra_simps power_add)
lemma eval_append: "eval (a @ b) x y = eval a x y + eval b x y"
  by (simp add: eval_def)
lemma eval_mul: "eval (e_mul a b) x y = eval a x y * eval b x y"
proof (induction a)
  case Nil
  then show ?case by (simp add: e_mul_def eval_def)
next
  case (Cons m a)
  obtain c i j where m: "m = (c, i, j)" by (cases m)
  have "eval (e_mul (m # a) b) x y = c * x ^ i * y ^ j * eval b x y + eval (e_mul a b) x y"
    by (simp add: e_mul_def m eval_append eval_mul_mono)
  then show ?case using Cons by (simp add: m eval_Cons algebra_simps)
qed

lemma sym_diff_X: "((\<lambda>t. eval e t y) has_real_derivative eval (sym_diff e X) x y) (at x)"
proof (induction e)
  case Nil
  then show ?case by (simp add: sym_diff_def eval_def)
next
  case (Cons m e)
  obtain c i j where m: "m = (c, i, j)" by (cases m)
  have "((\<lambda>t. c * t ^ i * y ^ j) has_real_derivative c * real i * x ^ (i - 1) * y ^ j) (at x)"
    by (auto intro!: derivative_eq_intros)
  then have "((\<lambda>t. c * t ^ i * y ^ j + eval e t y) has_real_derivative
      c * real i * x ^ (i - 1) * y ^ j + eval (sym_diff e X) x y) (at x)"
    using Cons by (intro DERIV_add)
  then show ?case by (simp add: m eval_Cons sym_diff_def)
qed

lemma sym_diff_Y: "((\<lambda>t. eval e x t) has_real_derivative eval (sym_diff e Y) x y) (at y)"
proof (induction e)
  case Nil
  then show ?case by (simp add: sym_diff_def eval_def)
next
  case (Cons m e)
  obtain c i j where m: "m = (c, i, j)" by (cases m)
  have "((\<lambda>t. c * x ^ i * t ^ j) has_real_derivative c * real j * x ^ i * y ^ (j - 1)) (at y)"
    by (auto intro!: derivative_eq_intros)
  then have "((\<lambda>t. c * x ^ i * t ^ j + eval e x t) has_real_derivative
      c * real j * x ^ i * y ^ (j - 1) + eval (sym_diff e Y) x y) (at y)"
    using Cons by (intro DERIV_add)
  then show ?case by (simp add: m eval_Cons sym_diff_def)
qed

lemma sym_diff_antiderivative: "eval (sym_diff (antiderivative e v) v) x y = eval e x y"
proof (induction e)
  case Nil
  then show ?case by (simp add: sym_diff_def antiderivative_def)
next
  case (Cons m e)
  obtain c i j where m: "m = (c, i, j)" by (cases m)
  show ?case using Cons by (cases v) (simp_all add: m sym_diff_def antiderivative_def eval_Cons)
qed

lemma integrate1_X: "eval (integrate1 e (X, a, b)) x y = eval (antiderivative e X) b y - eval (antiderivative e X) a y"
proof (induction e)
  case Nil
  then show ?case by (simp add: antiderivative_def eval_def)
next
  case (Cons m e)
  obtain c i j where m: "m = (c, i, j)" by (cases m)
  show ?case using Cons by (simp add: m antiderivative_def eval_Cons algebra_simps diff_divide_distrib)
qed

lemma integrate1_Y: "eval (integrate1 e (Y, a, b)) x y = eval (antiderivative e Y) x b - eval (antiderivative e Y) x a"
proof (induction e)
  case Nil
  then show ?case by (simp add: antiderivative_def eval_def)
next
  case (Cons m e)
  obtain c i j where m: "m = (c, i, j)" by (cases m)
  show ?case using Cons by (simp add: m antiderivative_def eval_Cons algebra_simps diff_divide_distrib)
qed

lemma sym_integrate_constant:
  "eval (sym_integrate e [(X, a, b), (Y, c, d)]) x y = scalar (sym_integrate e [(X, a, b), (Y, c, d)])"
  by (induction e) (auto simp: sym_integrate_def scalar_def eval_def)

section \<open>Evaluating the notebook's iterations\<close>

lemma upt4: "[0..<4] = [0,1,2,3]"
  by (simp add: upt_rec)
lemma upt8: "[0..<8] = [0,1,2,3,4,5,6,7]"
  by (simp add: upt_rec)
lemma list_update_numeral: "(x # xs)[numeral k := v] = x # xs[pred_numeral k := v]"
  by (simp add: numeral_eq_Suc)
lemma zeros_2_4: "zeros 2 4 = [[[],[],[],[]],[[],[],[],[]]]"
  by (simp add: zeros_def e_zero_def numeral_eq_Suc)
lemma zeros_3_8: "zeros 3 8 = [[[],[],[],[],[],[],[],[]],[[],[],[],[],[],[],[],[]],[[],[],[],[],[],[],[],[]]]"
  by (simp add: zeros_def e_zero_def numeral_eq_Suc)

lemma shape4_closed: "shape4 (Sym X) (Sym Y) h = 
  [[(h * h / (4 * h\<^sup>2), 0, 0), (h / (4 * h\<^sup>2), 0, 1),
       (h / (4 * h\<^sup>2), 1, 0), (1 / (4 * h\<^sup>2), 1, 1)],
      [(h * h / (4 * h\<^sup>2), 0, 0), (h / (4 * h\<^sup>2), 0, 1),
       (- (h / (4 * h\<^sup>2)), 1, 0), (- (1 / (4 * h\<^sup>2)), 1, 1)],
      [(h * h / (4 * h\<^sup>2), 0, 0), (- (h / (4 * h\<^sup>2)), 0, 1),
       (- (h / (4 * h\<^sup>2)), 1, 0), (1 / (4 * h\<^sup>2), 1, 1)],
      [(h * h / (4 * h\<^sup>2), 0, 0), (- (h / (4 * h\<^sup>2)), 0, 1),
       (h / (4 * h\<^sup>2), 1, 0), (- (1 / (4 * h\<^sup>2)), 1, 1)]]"
  unfolding shape4_def
  by (simp add: e_mul_def e_add_def e_sub_def e_scale_def Num_def)

lemma stdm4_closed: "stdm4 X Y h = B_closed (h / (4 * h\<^sup>2)) (1 / (4 * h\<^sup>2))"
  unfolding stdm4_def upt4 shape4_closed zeros_2_4 zeros_3_8 Let_def B_closed_def
  by (simp add: mat_set_def sym_diff_def list_update_numeral del: divide_divide_eq_left times_divide_eq_left)

lemma umat_closed:
  "umat nu E = C_closed (E / (1 - nu^2)) (nu * (E / (1 - nu^2))) (E / (1 - nu^2) * ((1 - nu) / 2))"
  by (simp add: umat_def C_closed_def Let_def mat_set_def zeros_def e_zero_def numeral_eq_Suc)

lemma K_loop:
  "K E nu h = map (\<lambda>i. map (\<lambda>j. sym_integrate (K_int E nu h ! i ! j) [(X, - h, h), (Y, - h, h)]) [0..<8]) [0..<8]"
  unfolding K_def upt8
  by (simp add: mat_set_def zeros_def numeral_eq_Suc)

lemma stdm4_entries:
  "stdm4 x y h =
     (let N = shape4 (Sym x) (Sym y) h;
          dx = (\<lambda>i. sym_diff (N ! i) x);
          dy = (\<lambda>i. sym_diff (N ! i) y)
      in [[dx 0, e_zero, dx 1, e_zero, dx 2, e_zero, dx 3, e_zero],
          [e_zero, dy 0, e_zero, dy 1, e_zero, dy 2, e_zero, dy 3],
          [dy 0, dx 0, dy 1, dx 1, dy 2, dx 2, dy 3, dx 3]])"
  unfolding stdm4_def upt4 zeros_2_4 zeros_3_8 Let_def
  by (simp add: mat_set_def list_update_numeral e_zero_def)

lemma I2_Nil: "I2 h [] = 0"
  by (simp add: I2_def sym_integrate_def scalar_def eval_def)

lemma I2_Cons: "I2 h ((c, i, j) # e) = c * mom h i * mom h j + I2 h e"
  by (simp add: I2_def sym_integrate_def scalar_def eval_def mom_def)

lemma I2_append: "I2 h (e @ f) = I2 h e + I2 h f"
  by (induction e) (auto simp: I2_Nil I2_Cons)

lemma mom_0: "mom h 0 = 2 * h"
  by (simp add: mom_def)
lemma mom_1: "mom h (Suc 0) = 0"
  by (simp add: mom_def)
lemma mom_2: "mom h (Suc (Suc 0)) = 2 * h ^ 3 / 3"
  by (simp add: mom_def power3_eq_cube)

lemma KI_generic:
  "map (map (I2 h)) (mat_mul (mat_mul (mat_T (B_closed p q)) (C_closed a b s)) (B_closed p q))
     = K_closed (4 * h\<^sup>2 * p\<^sup>2) (4 / 3 * h ^ 4 * q\<^sup>2) a b s"
  unfolding mat_mul_def mat_T_def dot_def B_closed_def C_closed_def K_closed_def
  apply (simp add: upt_rec e_mul_def e_add_def Num_def e_zero_def I2_Nil I2_Cons I2_append mom_0 mom_1 mom_2)
  apply (simp add: algebra_simps power2_eq_square power4_eq_xxxx power3_eq_cube)
  done

lemma shape4_eval:
  "map (\<lambda>e. eval e x y) (shape4 ex ey h) =
     [(h + eval ex x y) * (h + eval ey x y) / (4 * h\<^sup>2),
      (h - eval ex x y) * (h + eval ey x y) / (4 * h\<^sup>2),
      (h - eval ex x y) * (h - eval ey x y) / (4 * h\<^sup>2),
      (h + eval ex x y) * (h - eval ey x y) / (4 * h\<^sup>2)]"
  by (simp add: shape4_def eval_scale eval_mul eval_add eval_sub eval_Num)

section \<open>The shape functions\<close>

text \<open>
  C3: for every \<open>x\<close>, \<open>y\<close> and every \<open>h > 0\<close>, \<open>shape4(x, y, h)\<close> is the vector of the four
  functions \<open>(h+x)(h+y)/(4h\<^sup>2)\<close>, \<open>(h-x)(h+y)/(4h\<^sup>2)\<close>, \<open>(h-x)(h-y)/(4h\<^sup>2)\<close>,
  \<open>(h+x)(h-y)/(4h\<^sup>2)\<close>, in this order. It is stated for the call with the symbols
  \<open>x\<close>, \<open>y\<close> (the values of the four expressions at any point) and for the call with
  numbers.
\<close>

theorem shape4_returns:
  assumes "0 < h"
  shows "map (\<lambda>e. eval e x y) (shape4 (Sym X) (Sym Y) h) =
           [(h + x) * (h + y) / (4 * h\<^sup>2), (h - x) * (h + y) / (4 * h\<^sup>2),
            (h - x) * (h - y) / (4 * h\<^sup>2), (h + x) * (h - y) / (4 * h\<^sup>2)]
       \<and> map scalar (shape4 (Num x) (Num y) h) =
           [(h + x) * (h + y) / (4 * h\<^sup>2), (h - x) * (h + y) / (4 * h\<^sup>2),
            (h - x) * (h - y) / (4 * h\<^sup>2), (h + x) * (h - y) / (4 * h\<^sup>2)]"
  unfolding scalar_def by (simp add: shape4_eval eval_Cons eval_Nil eval_Num)

theorem shape4_returns_witness:
  "map (\<lambda>e. eval e 1 0) (shape4 (Sym X) (Sym Y) 2) = [3 / 8, 1 / 8, 1 / 8, 3 / 8]
   \<and> map scalar (shape4 (Num 1) (Num 0) 2) = [3 / 8, 1 / 8, 1 / 8, 3 / 8]"
  using shape4_returns [of 2 1 0] by simp

text \<open>
  C6: for every \<open>h > 0\<close> the four shape functions sum to one, at every point and whatever
  expressions are passed for \<open>x\<close> and \<open>y\<close>.
\<close>

theorem shape4_partition_of_unity:
  assumes "0 < h"
  shows "sum_list (map (\<lambda>e. eval e x y) (shape4 ex ey h)) = 1"
proof -
  have "h\<^sup>2 \<noteq> 0" using assms by simp
  then show ?thesis
    unfolding shape4_eval by (simp add: field_simps power2_eq_square)
qed

theorem shape4_partition_of_unity_witness:
  "sum_list (map (\<lambda>e. eval e (1/2) 3) (shape4 (Sym X) (Sym Y) 2)) = 1"
  using shape4_partition_of_unity [where h = 2 and ex = "Sym X" and ey = "Sym Y" and x = "1/2" and y = 3]
  by simp

text \<open>
  C7: for every \<open>h > 0\<close>, the shape function \<open>N\<^sub>i\<close> is one at node \<open>i\<close> and zero at the
  other three nodes: the matrix of the values of the four functions (rows) at the four
  nodes (columns) is the identity.
\<close>

theorem shape4_kronecker_delta:
  assumes "0 < h"
  shows "map (\<lambda>e. map (\<lambda>(a, b). eval e a b) (nodes h)) (shape4 (Sym X) (Sym Y) h) =
           [[1, 0, 0, 0], [0, 1, 0, 0], [0, 0, 1, 0], [0, 0, 0, 1]]"
proof -
  have h: "h * h \<noteq> 0" using assms by simp
  have N: "shape4 (Sym X) (Sym Y) h = map (\<lambda>e. e) (shape4 (Sym X) (Sym Y) h)" by simp
  have "map (\<lambda>e. [eval e h h, eval e (- h) h, eval e (- h) (- h), eval e h (- h)])
          (shape4 (Sym X) (Sym Y) h) = [[1, 0, 0, 0], [0, 1, 0, 0], [0, 0, 1, 0], [0, 0, 0, 1]]"
    using h unfolding shape4_def
    by (simp add: eval_scale eval_mul eval_add eval_sub eval_Num eval_Cons eval_Nil power2_eq_square)
  then show ?thesis by (simp add: nodes_def)
qed

theorem shape4_kronecker_delta_witness:
  "map (\<lambda>e. map (\<lambda>(a, b). eval e a b) (nodes 2)) (shape4 (Sym X) (Sym Y) 2) =
           [[1, 0, 0, 0], [0, 1, 0, 0], [0, 0, 1, 0], [0, 0, 0, 1]]"
  using shape4_kronecker_delta [of 2] by simp

section \<open>The strain-displacement matrix\<close>

text \<open>
  C4: for every \<open>h > 0\<close> and whichever symbols are passed for \<open>x\<close> and \<open>y\<close>,
  \<open>stdm4(x, y, h)\<close> is a 3 by 8 matrix and, for each node
  \<open>i < 4\<close>, row 0 holds \<open>\<partial>N\<^sub>i/\<partial>x\<close> in column \<open>2i\<close> and zero in column \<open>2i+1\<close>, row 1 holds
  zero in column \<open>2i\<close> and \<open>\<partial>N\<^sub>i/\<partial>y\<close> in column \<open>2i+1\<close>, and row 2 holds \<open>\<partial>N\<^sub>i/\<partial>y\<close> in
  column \<open>2i\<close> and \<open>\<partial>N\<^sub>i/\<partial>x\<close> in column \<open>2i+1\<close>; the entries called derivatives are
  the derivatives of the shape functions at every point.
\<close>

theorem stdm4_returns:
  assumes "0 < h" and "i < 4"
  shows "length (stdm4 vx vy h) = 3 \<and> (\<forall>r \<in> set (stdm4 vx vy h). length r = 8)
    \<and> stdm4 vx vy h ! 0 ! (2 * i) = sym_diff (shape4 (Sym vx) (Sym vy) h ! i) vx
    \<and> stdm4 vx vy h ! 0 ! (2 * i + 1) = e_zero
    \<and> stdm4 vx vy h ! 1 ! (2 * i) = e_zero
    \<and> stdm4 vx vy h ! 1 ! (2 * i + 1) = sym_diff (shape4 (Sym vx) (Sym vy) h ! i) vy
    \<and> stdm4 vx vy h ! 2 ! (2 * i) = sym_diff (shape4 (Sym vx) (Sym vy) h ! i) vy
    \<and> stdm4 vx vy h ! 2 ! (2 * i + 1) = sym_diff (shape4 (Sym vx) (Sym vy) h ! i) vx
    \<and> ((\<lambda>t. eval (shape4 (Sym X) (Sym Y) h ! i) t y) has_real_derivative
          eval (stdm4 X Y h ! 0 ! (2 * i)) x y) (at x)
    \<and> ((\<lambda>t. eval (shape4 (Sym X) (Sym Y) h ! i) x t) has_real_derivative
          eval (stdm4 X Y h ! 1 ! (2 * i + 1)) x y) (at y)"
proof -
  from \<open>i < 4\<close> consider "i = 0" | "i = 1" | "i = 2" | "i = 3" by linarith
  then have E: "stdm4 vx vy h ! 0 ! (2 * i) = sym_diff (shape4 (Sym vx) (Sym vy) h ! i) vx
    \<and> stdm4 vx vy h ! 0 ! (2 * i + 1) = e_zero
    \<and> stdm4 vx vy h ! 1 ! (2 * i) = e_zero
    \<and> stdm4 vx vy h ! 1 ! (2 * i + 1) = sym_diff (shape4 (Sym vx) (Sym vy) h ! i) vy
    \<and> stdm4 vx vy h ! 2 ! (2 * i) = sym_diff (shape4 (Sym vx) (Sym vy) h ! i) vy
    \<and> stdm4 vx vy h ! 2 ! (2 * i + 1) = sym_diff (shape4 (Sym vx) (Sym vy) h ! i) vx" for vx vy
    by cases (simp_all add: stdm4_entries Let_def)
  have L: "length (stdm4 vx vy h) = 3 \<and> (\<forall>r \<in> set (stdm4 vx vy h). length r = 8)"
    by (simp add: stdm4_entries Let_def)
  have D: "((\<lambda>t. eval (shape4 (Sym X) (Sym Y) h ! i) t y) has_real_derivative
          eval (stdm4 X Y h ! 0 ! (2 * i)) x y) (at x)
    \<and> ((\<lambda>t. eval (shape4 (Sym X) (Sym Y) h ! i) x t) has_real_derivative
          eval (stdm4 X Y h ! 1 ! (2 * i + 1)) x y) (at y)"
    using E [of X Y] sym_diff_X sym_diff_Y by simp
  show ?thesis using E [of vx vy] L D by blast
qed

theorem stdm4_returns_witness:
  "stdm4 X Y 2 ! 0 ! 4 = sym_diff (shape4 (Sym X) (Sym Y) 2 ! 2) X
   \<and> stdm4 X Y 2 ! 1 ! 4 = e_zero
   \<and> stdm4 X Y 2 ! 2 ! 5 = sym_diff (shape4 (Sym X) (Sym Y) 2 ! 2) X"
  using stdm4_returns [where h = 2 and i = 2 and vx = X and vy = Y] by simp

section \<open>The constitutive matrix\<close>

text \<open>
  C5: for \<open>nu\<^sup>2 \<noteq> 1\<close>, \<open>umat(nu, E)\<close> is the 3 by 3 matrix with \<open>G = E/(1 - nu\<^sup>2)\<close> at
  (0,0) and (1,1), \<open>nu G\<close> at (0,1) and (1,0), \<open>G (1 - nu)/2\<close> at (2,2) and zero elsewhere;
  it equals its transpose.
\<close>

theorem umat_returns:
  assumes "nu\<^sup>2 \<noteq> 1"
  shows "map (map scalar) (umat nu E) =
           [[E / (1 - nu\<^sup>2), nu * (E / (1 - nu\<^sup>2)), 0],
            [nu * (E / (1 - nu\<^sup>2)), E / (1 - nu\<^sup>2), 0],
            [0, 0, E / (1 - nu\<^sup>2) * (1 - nu) / 2]]
       \<and> umat nu E =
           [[Num (E / (1 - nu\<^sup>2)), Num (nu * (E / (1 - nu\<^sup>2))), e_zero],
            [Num (nu * (E / (1 - nu\<^sup>2))), Num (E / (1 - nu\<^sup>2)), e_zero],
            [e_zero, e_zero, Num (E / (1 - nu\<^sup>2) * ((1 - nu) / 2))]]
       \<and> mat_T (umat nu E) = umat nu E"
  unfolding umat_closed C_closed_def mat_T_def scalar_def
  by (simp add: eval_Num eval_zero upt_rec)

theorem umat_returns_witness:
  "map (map scalar) (umat (1 / 3) (8 / 3)) = [[3, 1, 0], [1, 3, 0], [0, 0, 1]]"
proof -
  have "(1 / 3 :: real)\<^sup>2 \<noteq> 1" by (simp add: power2_eq_square)
  from umat_returns [OF this, of "8 / 3", THEN conjunct1]
  show ?thesis by (simp add: power2_eq_square)
qed

section \<open>The stiffness matrix in closed form\<close>

lemma map_nth_upt: "length xs = n \<Longrightarrow> map (\<lambda>i. f (xs ! i)) [0..<n] = map f xs"
  by (auto simp: list_eq_iff_nth_eq)

lemma length_mat_mul: "length (mat_mul A B) = length A"
  by (simp add: mat_mul_def)

lemma length_mat_mul_row: "r \<in> set (mat_mul A B) \<Longrightarrow> length r = length (hd B)"
  by (auto simp: mat_mul_def mat_T_def)

lemma length_mat_T: "length (mat_T A) = length (hd A)"
  by (simp add: mat_T_def)

lemma K_int_dims: "length (K_int E nu h) = 8 \<and> (\<forall>r \<in> set (K_int E nu h). length r = 8)"
  unfolding K_int_def Let_def stdm4_closed
  by (auto simp: length_mat_mul length_mat_T dest!: length_mat_mul_row) (simp_all add: B_closed_def)

lemma K_subs_I2: "K_subs E nu h = map (map (I2 h)) (K_int E nu h)"
proof -
  have "K_subs E nu h = map (\<lambda>i. map (\<lambda>j. I2 h (K_int E nu h ! i ! j)) [0..<8]) [0..<8]"
    by (simp add: K_subs_def K_loop I2_def comp_def)
  also have "\<dots> = map (\<lambda>i. map (I2 h) (K_int E nu h ! i)) [0..<8]"
  proof (rule map_cong [OF refl])
    fix i assume "i \<in> set [0..<8]"
    then have "K_int E nu h ! i \<in> set (K_int E nu h)" using K_int_dims by simp
    then have "length (K_int E nu h ! i) = 8" using K_int_dims by blast
    then show "map (\<lambda>j. I2 h (K_int E nu h ! i ! j)) [0..<8] = map (I2 h) (K_int E nu h ! i)"
      by (rule map_nth_upt)
  qed
  also have "\<dots> = map (map (I2 h)) (K_int E nu h)"
    using K_int_dims by (intro map_nth_upt) simp
  finally show ?thesis .
qed

lemma K_subs_closed:
  "K_subs E nu h =
     K_closed (4 * h\<^sup>2 * (h / (4 * h\<^sup>2))\<^sup>2) (4 / 3 * h ^ 4 * (1 / (4 * h\<^sup>2))\<^sup>2)
       (E / (1 - nu\<^sup>2)) (nu * (E / (1 - nu\<^sup>2))) (E / (1 - nu\<^sup>2) * ((1 - nu) / 2))"
  unfolding K_subs_I2 K_int_def Let_def stdm4_closed umat_closed by (rule KI_generic)

lemma K_subs_nonzero:
  assumes "h \<noteq> 0"
  shows "K_subs E nu h =
     K_closed (1 / 4) (1 / 12)
       (E / (1 - nu\<^sup>2)) (nu * (E / (1 - nu\<^sup>2))) (E / (1 - nu\<^sup>2) * ((1 - nu) / 2))"
proof -
  have "4 * h\<^sup>2 * (h / (4 * h\<^sup>2))\<^sup>2 = 1 / 4"
    using assms by (simp add: field_simps power2_eq_square)
  moreover have "4 / 3 * h ^ 4 * (1 / (4 * h\<^sup>2))\<^sup>2 = 1 / 12"
    using assms by (simp add: field_simps power2_eq_square power4_eq_xxxx)
  ultimately show ?thesis by (simp only: K_subs_closed)
qed

lemma kk_exact:
  "kk =
    [[4 / 3, 1 / 2, - (5 / 6), 0, - (2 / 3), - (1 / 2), 1 / 6, 0],
     [1 / 2, 4 / 3, 0, 1 / 6, - (1 / 2), - (2 / 3), 0, - (5 / 6)],
     [- (5 / 6), 0, 4 / 3, - (1 / 2), 1 / 6, 0, - (2 / 3), 1 / 2],
     [0, 1 / 6, - (1 / 2), 4 / 3, 0, - (5 / 6), 1 / 2, - (2 / 3)],
     [- (2 / 3), - (1 / 2), 1 / 6, 0, 4 / 3, 1 / 2, - (5 / 6), 0],
     [- (1 / 2), - (2 / 3), 0, - (5 / 6), 1 / 2, 4 / 3, 0, 1 / 6],
     [1 / 6, 0, - (2 / 3), 1 / 2, - (5 / 6), 0, 4 / 3, - (1 / 2)],
     [0, - (5 / 6), 1 / 2, - (2 / 3), 0, 1 / 6, - (1 / 2), 4 / 3]]"
  unfolding kk_def EE_def nuu_def
  by (simp add: K_subs_nonzero K_closed_def power2_eq_square)

lemma K_closed_transpose:
  "map (\<lambda>j. map (\<lambda>i. K_closed P Q a b s ! i ! j) [0..<8]) [0..<8] = K_closed P Q a b s"
  unfolding upt8 by (simp add: K_closed_def)

lemma K_closed_symmetric:
  assumes "i < 8" and "j < 8"
  shows "K_closed P Q a b s ! i ! j = K_closed P Q a b s ! j ! i"
proof -
  have "K_closed P Q a b s ! j ! i
      = map (\<lambda>j. map (\<lambda>i. K_closed P Q a b s ! i ! j) [0..<8]) [0..<8] ! j ! i"
    by (simp only: K_closed_transpose)
  also have "\<dots> = K_closed P Q a b s ! i ! j"
    using assms by simp
  finally show ?thesis by simp
qed

lemma K_closed_scale:
  "K_closed P Q (l * a) (l * b) (l * s) = map (map ((*) l)) (K_closed P Q a b s)"
  by (simp add: K_closed_def algebra_simps)

section \<open>The quadratic form of the stiffness matrix\<close>

lemma length_8:
  assumes "length (v :: real list) = 8"
  obtains u1 v1 u2 v2 u3 v3 u4 v4 where "v = [u1, v1, u2, v2, u3, v3, u4, v4]"
  using assms by (auto simp: numeral_eq_Suc length_Suc_conv)

lemma mat_vec_closed:
  assumes "al = P * (a * (u1 - u2 - u3 + u4) + b * (v1 + v2 - v3 - v4))"
    and "be = Q * (a + s) * (u1 - u2 + u3 - u4)"
    and "ga = P * s * (u1 + u2 - u3 - u4 + v1 - v2 - v3 + v4)"
    and "de = P * (b * (u1 - u2 - u3 + u4) + a * (v1 + v2 - v3 - v4))"
    and "ep = Q * (a + s) * (v1 - v2 + v3 - v4)"
  shows "mat_vec (K_closed P Q a b s) [u1, v1, u2, v2, u3, v3, u4, v4] =
     [al + be + ga,
      de + ep + ga,
      - al - be + ga,
      de - ep - ga,
      - al + be - ga,
      - de + ep - ga,
      al - be - ga,
      - de - ep + ga]"
  unfolding mat_vec_def K_closed_def assms
  by (simp add: algebra_simps)

lemma qform_vec:
  "qform M [u1, v1, u2, v2, u3, v3, u4, v4] =
     sum_list (map2 (*) [u1, v1, u2, v2, u3, v3, u4, v4] (mat_vec M [u1, v1, u2, v2, u3, v3, u4, v4]))"
  by (simp add: qform_def)

lemma qform_closed:
  assumes "al = P * (a * (u1 - u2 - u3 + u4) + b * (v1 + v2 - v3 - v4))"
    and "be = Q * (a + s) * (u1 - u2 + u3 - u4)"
    and "ga = P * s * (u1 + u2 - u3 - u4 + v1 - v2 - v3 + v4)"
    and "de = P * (b * (u1 - u2 - u3 + u4) + a * (v1 + v2 - v3 - v4))"
    and "ep = Q * (a + s) * (v1 - v2 + v3 - v4)"
  shows "qform (K_closed P Q a b s) [u1, v1, u2, v2, u3, v3, u4, v4] =
     al * (u1 - u2 - u3 + u4) + be * (u1 - u2 + u3 - u4)
     + ga * (u1 + u2 - u3 - u4 + v1 - v2 - v3 + v4)
     + de * (v1 + v2 - v3 - v4) + ep * (v1 - v2 + v3 - v4)"
  unfolding qform_vec mat_vec_closed [OF assms]
  by (simp add: algebra_simps)

lemma mat_vec_rigid:
  "mat_vec (K_closed P Q a b s) (rigid_motion h al be ga) = replicate 8 0"
proof -
  have "rigid_motion h al be ga =
      [al - ga * h, be + ga * h, al - ga * h, be + ga * (- h),
       al - ga * (- h), be + ga * (- h), al - ga * (- h), be + ga * h]"
    by (simp add: rigid_motion_def nodes_def)
  then show ?thesis
    by (simp add: mat_vec_closed [OF refl refl refl refl refl] numeral_eq_Suc)
qed

lemma qform_zero: "length v = 8 \<Longrightarrow> mat_vec M v = replicate 8 0 \<Longrightarrow> qform M v = 0"
  by (erule length_8) (simp add: qform_def numeral_eq_Suc)

lemma qform_eigen:
  "mat_vec M [u1, v1, u2, v2, u3, v3, u4, v4] = map ((*) l) [u1, v1, u2, v2, u3, v3, u4, v4] \<Longrightarrow>
   qform M [u1, v1, u2, v2, u3, v3, u4, v4] =
     l * (u1\<^sup>2 + v1\<^sup>2 + u2\<^sup>2 + v2\<^sup>2 + u3\<^sup>2 + v3\<^sup>2 + u4\<^sup>2 + v4\<^sup>2)"
  by (simp add: qform_def power2_eq_square algebra_simps)

lemma rigid_motion_list:
  "rigid_motion h a b c =
     [a - c * h, b + c * h, a - c * h, b - c * h, a + c * h, b - c * h, a + c * h, b + c * h]"
  by (simp add: rigid_motion_def nodes_def)

lemma material_positive:
  fixes E nu :: real
  assumes "0 < E" and "- 1 < nu" and "nu < 1 / 2"
  shows "0 < E / (1 - nu\<^sup>2)" and "0 < E / (1 - nu\<^sup>2) * ((1 - nu) / 2)" and "nu\<^sup>2 < 1"
proof -
  have "\<bar>nu\<bar> < 1" using assms by simp
  then show n: "nu\<^sup>2 < 1" by (simp add: abs_square_less_1)
  then show G: "0 < E / (1 - nu\<^sup>2)" using assms by simp
  show "0 < E / (1 - nu\<^sup>2) * ((1 - nu) / 2)" using G assms by (intro mult_pos_pos) simp_all
qed

lemma qform_K:
  assumes "h \<noteq> 0"
  shows "qform (K_subs E nu h) [u1, v1, u2, v2, u3, v3, u4, v4] =
     E / (1 - nu\<^sup>2) / 4 * (((u1 - u2 - u3 + u4) + nu * (v1 + v2 - v3 - v4))\<^sup>2
                              + (1 - nu\<^sup>2) * (v1 + v2 - v3 - v4)\<^sup>2)
     + (E / (1 - nu\<^sup>2) + E / (1 - nu\<^sup>2) * ((1 - nu) / 2)) / 12
         * ((u1 - u2 + u3 - u4)\<^sup>2 + (v1 - v2 + v3 - v4)\<^sup>2)
     + E / (1 - nu\<^sup>2) * ((1 - nu) / 2) / 4 * (u1 + u2 - u3 - u4 + v1 - v2 - v3 + v4)\<^sup>2"
proof -
  define G where "G = E / (1 - nu\<^sup>2)"
  define s where "s = G * ((1 - nu) / 2)"
  define A1 where "A1 = u1 - u2 - u3 + u4"
  define A2 where "A2 = u1 - u2 + u3 - u4"
  define B1 where "B1 = v1 + v2 - v3 - v4"
  define B2 where "B2 = v1 - v2 + v3 - v4"
  define C1 where "C1 = u1 + u2 - u3 - u4 + v1 - v2 - v3 + v4"
  have "qform (K_subs E nu h) [u1, v1, u2, v2, u3, v3, u4, v4] =
      1 / 4 * (G * A1 + nu * G * B1) * A1 + 1 / 12 * (G + s) * A2 * A2 + 1 / 4 * s * C1 * C1
      + 1 / 4 * (nu * G * A1 + G * B1) * B1 + 1 / 12 * (G + s) * B2 * B2"
    unfolding K_subs_nonzero [OF assms] qform_closed [OF refl refl refl refl refl]
      G_def s_def A1_def A2_def B1_def B2_def C1_def
    by (rule refl)
  also have "\<dots> = G / 4 * ((A1 + nu * B1)\<^sup>2 + (1 - nu\<^sup>2) * B1\<^sup>2)
      + (G + s) / 12 * (A2\<^sup>2 + B2\<^sup>2) + s / 4 * C1\<^sup>2"
    by (simp add: field_simps power2_eq_square)
  finally show ?thesis
    unfolding G_def s_def A1_def A2_def B1_def B2_def C1_def .
qed


lemma K_psd_aux:
  fixes E nu h :: real
  assumes "0 < E" and "- 1 < nu" and "nu < 1 / 2" and "h \<noteq> 0"
  shows "0 \<le> qform (K_subs E nu h) [u1, v1, u2, v2, u3, v3, u4, v4]"
    and "qform (K_subs E nu h) [u1, v1, u2, v2, u3, v3, u4, v4] = 0 \<Longrightarrow>
         u2 = u1 \<and> u4 = u3 \<and> v4 = v1 \<and> v3 = v2 \<and> u1 - u3 + v1 - v2 = 0"
proof -
  define G where "G = E / (1 - nu\<^sup>2)"
  define s where "s = G * ((1 - nu) / 2)"
  define A1 where "A1 = u1 - u2 - u3 + u4"
  define A2 where "A2 = u1 - u2 + u3 - u4"
  define B1 where "B1 = v1 + v2 - v3 - v4"
  define B2 where "B2 = v1 - v2 + v3 - v4"
  define C1 where "C1 = u1 + u2 - u3 - u4 + v1 - v2 - v3 + v4"
  define t1 where "t1 = G / 4 * ((A1 + nu * B1)\<^sup>2 + (1 - nu\<^sup>2) * B1\<^sup>2)"
  define t2 where "t2 = (G + s) / 12 * (A2\<^sup>2 + B2\<^sup>2)"
  define t3 where "t3 = s / 4 * C1\<^sup>2"
  have G: "0 < G" and s: "0 < s" and n: "0 < 1 - nu\<^sup>2"
    using material_positive [OF assms(1-3)] by (simp_all add: G_def s_def)
  have q: "qform (K_subs E nu h) [u1, v1, u2, v2, u3, v3, u4, v4] = t1 + t2 + t3"
    unfolding qform_K [OF assms(4)] t1_def t2_def t3_def G_def s_def A1_def A2_def B1_def B2_def C1_def
    by (rule refl)
  have n1: "0 \<le> (A1 + nu * B1)\<^sup>2 + (1 - nu\<^sup>2) * B1\<^sup>2" using n by simp
  have t1: "0 \<le> t1" unfolding t1_def using G n1 by (intro mult_nonneg_nonneg) simp_all
  have t2: "0 \<le> t2" unfolding t2_def using G s by (intro mult_nonneg_nonneg) simp_all
  have t3: "0 \<le> t3" unfolding t3_def using s by (intro mult_nonneg_nonneg) simp_all
  show "0 \<le> qform (K_subs E nu h) [u1, v1, u2, v2, u3, v3, u4, v4]"
    using q t1 t2 t3 by simp
  assume "qform (K_subs E nu h) [u1, v1, u2, v2, u3, v3, u4, v4] = 0"
  then have z: "t1 = 0" "t2 = 0" "t3 = 0" using q t1 t2 t3 by linarith+
  from z(1) G have "(A1 + nu * B1)\<^sup>2 + (1 - nu\<^sup>2) * B1\<^sup>2 = 0" by (simp add: t1_def)
  moreover have "0 \<le> (A1 + nu * B1)\<^sup>2" and "0 \<le> (1 - nu\<^sup>2) * B1\<^sup>2" using n by simp_all
  ultimately have "(A1 + nu * B1)\<^sup>2 = 0" and "(1 - nu\<^sup>2) * B1\<^sup>2 = 0" by linarith+
  then have B1: "B1 = 0" and A1: "A1 = 0" using n by simp_all
  from z(2) G s have "A2\<^sup>2 + B2\<^sup>2 = 0" by (simp add: t2_def)
  then have A2: "A2 = 0" and B2: "B2 = 0" by (simp_all add: sum_power2_eq_zero_iff)
  from z(3) s have C1: "C1 = 0" by (simp add: t3_def)
  show "u2 = u1 \<and> u4 = u3 \<and> v4 = v1 \<and> v3 = v2 \<and> u1 - u3 + v1 - v2 = 0"
    using A1 A2 B1 B2 C1 unfolding A1_def A2_def B1_def B2_def C1_def by linarith
qed

lemma replicate_8: "replicate 8 x = [x, x, x, x, x, x, x, x]"
  by (simp add: numeral_eq_Suc)

section \<open>Properties of the stiffness matrix\<close>

text \<open>
  C1: with \<open>nu = 1/3\<close>, \<open>E = 8/3\<close> and \<open>h = 1\<close> substituted, every entry of the stiffness
  matrix rounds to the entry of the printed reference matrix at three significant digits;
  in particular \<open>K[0,0]\<close> rounds to 1.33, \<open>K[0,1]\<close> to 0.500, \<open>K[0,2]\<close> to -0.833, \<open>K[0,4]\<close>
  to -0.667 and \<open>K[0,6]\<close> to 0.167.
\<close>

theorem kk_matches_reference:
  "list_all2 (list_all2 rounds_to) kk K_reference
   \<and> rounds_to (kk ! 0 ! 0) (Dec 133 2) \<and> rounds_to (kk ! 0 ! 1) (Dec 500 3)
   \<and> rounds_to (kk ! 0 ! 2) (Dec (- 833) 3) \<and> rounds_to (kk ! 0 ! 4) (Dec (- 667) 3)
   \<and> rounds_to (kk ! 0 ! 6) (Dec 167 3)"
  unfolding kk_exact K_reference_def by simp

text \<open>
  C2: for every \<open>E\<close>, \<open>nu\<close> and \<open>h > 0\<close> the stiffness matrix is symmetric:
  \<open>K[i,j] = K[j,i]\<close> for all \<open>i, j < 8\<close>.
\<close>

theorem K_symmetric:
  assumes "0 < h" and "i < 8" and "j < 8"
  shows "K_subs E nu h ! i ! j = K_subs E nu h ! j ! i"
  using assms by (simp only: K_subs_closed K_closed_symmetric)

theorem K_symmetric_witness:
  "K_subs 1 0 2 ! 0 ! 3 = K_subs 1 0 2 ! 3 ! 0"
  using K_symmetric [where h = 2 and i = 0 and j = 3] by simp

text \<open>
  C8: for fixed \<open>nu\<close> and \<open>h\<close>, scaling \<open>E\<close> by any factor scales every entry of the
  stiffness matrix by that factor.
\<close>

theorem K_homogeneous_in_E:
  "K_subs (l * E) nu h = map (map ((*) l)) (K_subs E nu h)"
proof -
  have "l * E / (1 - nu\<^sup>2) = l * (E / (1 - nu\<^sup>2))"
    and "nu * (l * E / (1 - nu\<^sup>2)) = l * (nu * (E / (1 - nu\<^sup>2)))"
    and "l * E / (1 - nu\<^sup>2) * ((1 - nu) / 2) = l * (E / (1 - nu\<^sup>2) * ((1 - nu) / 2))"
    by simp_all
  then show ?thesis by (simp only: K_subs_closed K_closed_scale)
qed

text \<open>
  C10: for every \<open>E\<close>, every \<open>nu\<close> with \<open>nu\<^sup>2 \<noteq> 1\<close> and every \<open>h > 0\<close>, the stiffness matrix
  does not depend on \<open>h\<close>: it is the matrix obtained for \<open>h = 1\<close>.
\<close>

theorem K_independent_of_h:
  assumes "0 < h" and "nu\<^sup>2 \<noteq> 1"
  shows "K_subs E nu h = K_subs E nu 1"
proof -
  have h: "h \<noteq> 0" and one: "(1::real) \<noteq> 0" using assms by simp_all
  show ?thesis unfolding K_subs_nonzero [OF h] K_subs_nonzero [OF one] by (rule refl)
qed

theorem K_independent_of_h_witness:
  "K_subs 1 0 5 = K_subs 1 0 1"
  using K_independent_of_h [where h = 5 and nu = 0 and E = 1] by simp

text \<open>
  C9: for \<open>E > 0\<close>, \<open>-1 < nu < 1/2\<close> and \<open>h > 0\<close> (the notebook's values among them) the
  stiffness matrix is positive semidefinite, \<open>v\<^sup>T K v \<ge> 0\<close> for every \<open>v\<close> of length 8, so
  every eigenvalue is at least zero; and the eigenvalue zero has exactly three
  independent eigenvectors: \<open>K v = 0\<close> holds exactly for the rigid motions, which are
  parametrised one-to-one by two translations and one rotation.
\<close>

theorem K_positive_semidefinite:
  fixes E nu h :: real
  assumes "0 < E" and "- 1 < nu" and "nu < 1 / 2" and "0 < h"
  shows "(\<forall>v. length v = 8 \<longrightarrow> 0 \<le> qform (K_subs E nu h) v)
    \<and> (\<forall>v l. length v = 8 \<and> v \<noteq> replicate 8 0 \<and> mat_vec (K_subs E nu h) v = map ((*) l) v
          \<longrightarrow> 0 \<le> l)
    \<and> (\<forall>v. length v = 8 \<longrightarrow>
          (mat_vec (K_subs E nu h) v = replicate 8 0 \<longleftrightarrow> (\<exists>a b c. v = rigid_motion h a b c)))
    \<and> (\<forall>a b c. rigid_motion h a b c = replicate 8 0 \<longrightarrow> a = 0 \<and> b = 0 \<and> c = 0)"
proof (intro conjI allI impI)
  have h: "h \<noteq> 0" using assms by simp
  note psd = K_psd_aux [OF assms(1-3) h]
  {
    fix v :: "real list" assume "length v = 8"
    then show "0 \<le> qform (K_subs E nu h) v"
      by (elim length_8) (simp only: psd(1))
  }
  {
    fix v :: "real list" and l :: real
    assume a: "length v = 8 \<and> v \<noteq> replicate 8 0 \<and> mat_vec (K_subs E nu h) v = map ((*) l) v"
    then obtain u1 v1 u2 v2 u3 v3 u4 v4 where v: "v = [u1, v1, u2, v2, u3, v3, u4, v4]"
      by (elim conjE length_8)
    define n where "n = u1\<^sup>2 + v1\<^sup>2 + u2\<^sup>2 + v2\<^sup>2 + u3\<^sup>2 + v3\<^sup>2 + u4\<^sup>2 + v4\<^sup>2"
    have "qform (K_subs E nu h) v = l * n"
      using a unfolding v n_def by (intro qform_eigen) simp
    then have "0 \<le> l * n" using psd(1) [of u1 v1 u2 v2 u3 v3 u4 v4] by (simp add: v)
    moreover have "0 \<le> n" by (simp add: n_def)
    moreover have "n \<noteq> 0"
    proof
      assume "n = 0"
      moreover have "0 \<le> u1\<^sup>2" "0 \<le> v1\<^sup>2" "0 \<le> u2\<^sup>2" "0 \<le> v2\<^sup>2"
        "0 \<le> u3\<^sup>2" "0 \<le> v3\<^sup>2" "0 \<le> u4\<^sup>2" "0 \<le> v4\<^sup>2"
        by simp_all
      ultimately have "u1\<^sup>2 = 0 \<and> v1\<^sup>2 = 0 \<and> u2\<^sup>2 = 0 \<and> v2\<^sup>2 = 0
          \<and> u3\<^sup>2 = 0 \<and> v3\<^sup>2 = 0 \<and> u4\<^sup>2 = 0 \<and> v4\<^sup>2 = 0"
        unfolding n_def by linarith
      then have "u1 = 0 \<and> v1 = 0 \<and> u2 = 0 \<and> v2 = 0 \<and> u3 = 0 \<and> v3 = 0 \<and> u4 = 0 \<and> v4 = 0"
        by simp
      then show False using a by (simp add: v numeral_eq_Suc)
    qed
    ultimately show "0 \<le> l"
      by (simp add: zero_le_mult_iff)
  }
  {
    fix v :: "real list" assume len: "length v = 8"
    show "mat_vec (K_subs E nu h) v = replicate 8 0 \<longleftrightarrow> (\<exists>a b c. v = rigid_motion h a b c)"
    proof
      assume z: "mat_vec (K_subs E nu h) v = replicate 8 0"
      obtain u1 v1 u2 v2 u3 v3 u4 v4 where v: "v = [u1, v1, u2, v2, u3, v3, u4, v4]"
        using len by (elim length_8)
      have "qform (K_subs E nu h) v = 0" using len z by (rule qform_zero)
      then have e: "u2 = u1 \<and> u4 = u3 \<and> v4 = v1 \<and> v3 = v2 \<and> u1 - u3 + v1 - v2 = 0"
        unfolding v by (rule psd(2))
      have ch: "(u3 - u1) / (2 * h) * h = (u3 - u1) / 2" using h by simp
      have "v = rigid_motion h ((u1 + u3) / 2) ((v1 + v2) / 2) ((u3 - u1) / (2 * h))"
        unfolding v rigid_motion_list ch using e by (simp add: field_simps)
      then show "\<exists>a b c. v = rigid_motion h a b c" by blast
    next
      assume "\<exists>a b c. v = rigid_motion h a b c"
      then show "mat_vec (K_subs E nu h) v = replicate 8 0"
        by (auto simp: K_subs_closed mat_vec_rigid)
    qed
  }
  {
    fix a b c :: real
    assume "rigid_motion h a b c = replicate 8 0"
    then have "a - c * h = 0 \<and> b + c * h = 0 \<and> a + c * h = 0"
      unfolding rigid_motion_list replicate_8 list.inject by blast
    then have "a = 0" and "b + c * h = 0" and "c * h = 0" by linarith+
    then show "a = 0" and "b = 0" and "c = 0" using h by simp_all
  }
qed

theorem K_positive_semidefinite_witness:
  "0 \<le> qform kk [1, 0, 0, 0, 0, 0, 0, 0]
   \<and> mat_vec kk (rigid_motion 1 1 2 3) = replicate 8 0"
proof -
  have "(0::real) < 8 / 3" and "- 1 < (1 / 3 :: real)" and "(1 / 3 :: real) < 1 / 2" and "(0::real) < 1"
    by simp_all
  from K_positive_semidefinite [OF this]
  have psd: "\<forall>v. length v = 8 \<longrightarrow> 0 \<le> qform kk v"
    and ker: "\<forall>v. length v = 8 \<longrightarrow>
          (mat_vec kk v = replicate 8 0 \<longleftrightarrow> (\<exists>a b c. v = rigid_motion 1 a b c))"
    unfolding kk_def EE_def nuu_def by simp_all
  have "0 \<le> qform kk [1, 0, 0, 0, 0, 0, 0, 0]" using psd by simp
  moreover have "length (rigid_motion 1 1 2 3) = 8" by (simp add: rigid_motion_list)
  then have "mat_vec kk (rigid_motion 1 1 2 3) = replicate 8 0" using ker by blast
  ultimately show ?thesis by simp
qed

end
